theory Spec2Isabelle
  imports Main "HOL-Library.Finite_Map"
begin

section \<open>JavaScript values\<close>

text \<open>
  The resolvers work on dynamically typed objects: the request context is an object whose
  fields are read with \<^verbatim>\<open>context.jwt\<close>, tested for truthiness with \<^verbatim>\<open>!\<close>, written in
  place and copied with object spread. A value is therefore a \<open>jsval\<close>; an object is a
  finite map from property names to values. A property that is present with the value
  \<^verbatim>\<open>undefined\<close> is different from an absent one (spread copies the former), and both read
  as \<^verbatim>\<open>undefined\<close>. Numbers are only ever tested for truthiness here, so they are integers.
\<close>

datatype jsval =
    JUndefined
  | JNull
  | JBool bool
  | JNum int
  | JStr string
  | JObj "(string, jsval) fmap"

type_synonym jsobj = "(string, jsval) fmap"

text \<open>\<^verbatim>\<open>Boolean(v)\<close>, the test behind \<^verbatim>\<open>!v\<close>, \<^verbatim>\<open>if (v)\<close> and \<^verbatim>\<open>v || w\<close>.\<close>

fun truthy :: "jsval \<Rightarrow> bool" where
  "truthy JUndefined = False"
| "truthy JNull = False"
| "truthy (JBool b) = b"
| "truthy (JNum n) = (n \<noteq> 0)"
| "truthy (JStr s) = (s \<noteq> [])"
| "truthy (JObj m) = True"

text \<open>\<^verbatim>\<open>o.k\<close> on an object \<open>o\<close>: the value of the property, \<^verbatim>\<open>undefined\<close> when absent.\<close>

definition obj_get :: "jsobj \<Rightarrow> string \<Rightarrow> jsval" where
  "obj_get m k = (case fmlookup m k of None \<Rightarrow> JUndefined | Some v \<Rightarrow> v)"

text \<open>
  \<^verbatim>\<open>v?.k\<close> on any value: \<^verbatim>\<open>undefined\<close> for \<^verbatim>\<open>undefined\<close> and \<^verbatim>\<open>null\<close>, the property for an
  object. A boolean, number or string has none of the properties read in this code, so
  \<^verbatim>\<open>v.k\<close> on a truthy primitive is \<^verbatim>\<open>undefined\<close> as well.
\<close>

fun member :: "jsval \<Rightarrow> string \<Rightarrow> jsval" where
  "member (JObj m) k = obj_get m k"
| "member _ k = JUndefined"

text \<open>\<^verbatim>\<open>o.k = v\<close> on an object, as a new object.\<close>

definition obj_set :: "string \<Rightarrow> jsval \<Rightarrow> jsobj \<Rightarrow> jsobj" where
  "obj_set k v m = fmupd k v m"

text \<open>
  The own properties that \<^verbatim>\<open>{...v}\<close> copies: those of an object, none for \<^verbatim>\<open>undefined\<close>,
  \<^verbatim>\<open>null\<close>, a boolean or a number. (A string would spread its characters; the connection
  parameters are typed as a record, so that case is left out.)
\<close>

fun props :: "jsval \<Rightarrow> jsobj" where
  "props (JObj m) = m"
| "props _ = fmempty"

text \<open>\<^verbatim>\<open>{...a, ...b}\<close>: the properties of \<open>a\<close>, overridden and extended by those of \<open>b\<close>.\<close>

definition spread :: "jsobj \<Rightarrow> jsobj \<Rightarrow> jsobj" where
  "spread a b = a ++\<^sub>f b"

text \<open>An object literal \<^verbatim>\<open>{k1: v1, ...}\<close>.\<close>

definition obj :: "(string \<times> jsval) list \<Rightarrow> jsobj" where
  "obj kvs = fmap_of_list kvs"

section \<open>Errors\<close>

text \<open>
  Every \<^verbatim>\<open>throw\<close> of the source is an \<open>error\<close> value, and a function that can throw returns
  \<open>error + 'a\<close>. \<open>AUTH_FORBIDDEN_ERROR\<close> is the constant of that name imported from the
  package's constants; only its identity matters.
\<close>

datatype neo4j_code = AUTH_FORBIDDEN_ERROR | OtherCode string

datatype error =
    Error string
  | TypeError string
  | Neo4jError string neo4j_code
  | Neo4jGraphQLSchemaValidationError string

section \<open>The schema operation registry (class Operation)\<close>

text \<open>
  An attribute is read through its \<^verbatim>\<open>name\<close> only; whatever else it carries is the
  extension part of the record. An annotation is opaque: the imported \<^verbatim>\<open>annotationToKey\<close>
  maps it to its key, and is a parameter of the model. \<^verbatim>\<open>attributes\<close> is a
  \<^verbatim>\<open>Map<string, Attribute>\<close>, \<^verbatim>\<open>annotations\<close> an object used as a dictionary; annotations
  are objects, hence truthy, and the keys are those of the \<^verbatim>\<open>Annotations\<close> type, none of
  which an empty object inherits, so \<^verbatim>\<open>if (existingAnnotation)\<close> tests presence.
\<close>

record Attribute =
  name :: string

record ('a, 'n) Operation =
  name :: string
  attributes :: "string \<rightharpoonup> 'a Attribute_scheme"
  annotations :: "string \<rightharpoonup> 'n"

definition findAttribute ::
  "('a, 'n) Operation \<Rightarrow> string \<Rightarrow> 'a Attribute_scheme option" where
  "findAttribute this n = attributes this n"

definition addAttribute ::
  "('a, 'n) Operation \<Rightarrow> 'a Attribute_scheme \<Rightarrow> error + ('a, 'n) Operation" where
  "addAttribute this attribute =
     (if attributes this (Attribute.name attribute) \<noteq> None
      then Inl (Neo4jGraphQLSchemaValidationError
                  (''Attribute '' @ Attribute.name attribute @ '' already exists in '' @ name this))
      else Inr (this\<lparr>attributes := (attributes this)(Attribute.name attribute \<mapsto> attribute)\<rparr>))"

definition addAnnotation ::
  "('n \<Rightarrow> string) \<Rightarrow> ('a, 'n) Operation \<Rightarrow> 'n \<Rightarrow> error + ('a, 'n) Operation" where
  "addAnnotation annotationToKey this annotation =
     (let annotationKey = annotationToKey annotation;
          existingAnnotation = annotations this annotationKey
      in if existingAnnotation \<noteq> None
         then Inl (Neo4jGraphQLSchemaValidationError
                     (''Annotation '' @ annotationKey @ '' already exists in '' @ name this))
         else Inr (this\<lparr>annotations := (annotations this)(annotationKey \<mapsto> annotation)\<rparr>))"

text \<open>
  The two loops of the constructor. A \<^verbatim>\<open>throw\<close> leaves the loop and the constructor; the
  result \<open>Inl (e, this)\<close> is the exception together with the object as it stood when the
  exception was raised (the caller only ever sees \<open>e\<close>).
\<close>

fun addAttributes ::
  "('a, 'n) Operation \<Rightarrow> 'a Attribute_scheme list \<Rightarrow>
   (error \<times> ('a, 'n) Operation) + ('a, 'n) Operation" where
  "addAttributes this [] = Inr this"
| "addAttributes this (attribute # rest) =
     (case addAttribute this attribute of
        Inl e \<Rightarrow> Inl (e, this)
      | Inr this' \<Rightarrow> addAttributes this' rest)"

fun addAnnotations ::
  "('n \<Rightarrow> string) \<Rightarrow> ('a, 'n) Operation \<Rightarrow> 'n list \<Rightarrow>
   (error \<times> ('a, 'n) Operation) + ('a, 'n) Operation" where
  "addAnnotations annotationToKey this [] = Inr this"
| "addAnnotations annotationToKey this (annotation # rest) =
     (case addAnnotation annotationToKey this annotation of
        Inl e \<Rightarrow> Inl (e, this)
      | Inr this' \<Rightarrow> addAnnotations annotationToKey this' rest)"

definition new_Operation ::
  "('n \<Rightarrow> string) \<Rightarrow> string \<Rightarrow> 'a Attribute_scheme list \<Rightarrow> 'n list \<Rightarrow>
   (error \<times> ('a, 'n) Operation) + ('a, 'n) Operation" where
  "new_Operation annotationToKey nm attrs anns =
     (case addAttributes \<lparr>name = nm, attributes = Map.empty, annotations = Map.empty\<rparr> attrs of
        Inl x \<Rightarrow> Inl x
      | Inr this \<Rightarrow> addAnnotations annotationToKey this anns)"

text \<open>The entries of a list of attributes or annotations, keyed as the registry keys them.\<close>

definition attribute_entries ::
  "'a Attribute_scheme list \<Rightarrow> (string \<times> 'a Attribute_scheme) list" where
  "attribute_entries attrs = map (\<lambda>a. (Attribute.name a, a)) attrs"

definition annotation_entries :: "('n \<Rightarrow> string) \<Rightarrow> 'n list \<Rightarrow> (string \<times> 'n) list" where
  "annotation_entries annotationToKey anns = map (\<lambda>n. (annotationToKey n, n)) anns"

section \<open>Collaborators of the resolver wrappers\<close>

text \<open>
  \<^verbatim>\<open>Neo4jGraphQLAuthorization\<close> is consumed through two asynchronous methods that either
  resolve to a claims value or throw, and one boolean property. Awaiting a call is modelled
  by its outcome, \<open>Inl\<close> for a rejection. The collaborators (the decoders, the version
  query, the next step) are taken to read the objects they are given and not to write to them.
\<close>

record Neo4jGraphQLAuthorization =
  decode :: "jsobj \<Rightarrow> error + jsval"
  decodeBearerTokenWithVerify :: "jsval \<Rightarrow> error + jsval"
  globalAuthentication :: bool

text \<open>
  \<^verbatim>\<open>WrapResolverArguments\<close>. An optional field that was not given reads as \<^verbatim>\<open>undefined\<close>;
  \<^verbatim>\<open>authorization\<close> is \<open>None\<close> when not given.
\<close>

record WrapResolverArguments =
  driver :: jsval
  nodes :: jsval
  relationships :: jsval
  jwtPayloadFieldsMap :: jsval
  schemaModel :: jsval
  dbInfo :: jsval
  features :: jsobj
  authorization :: "Neo4jGraphQLAuthorization option"

text \<open>
  The calls a wrapper makes to its collaborators, in the order it makes them: the two
  decoders, the database version query and the next resolver step. A wrapper returns the
  list of its calls next to its result, so that "the decoder is never invoked" and "the next
  step is never invoked" are statements about that list.
\<close>

datatype event =
    Decode jsobj
  | DecodeBearerTokenWithVerify jsval
  | GetNeo4jDatabaseInfo jsval
  | Next jsval jsval jsval jsval

type_synonym resolver = "jsval \<Rightarrow> jsval \<Rightarrow> jsval \<Rightarrow> jsval \<Rightarrow> error + jsval"

text \<open>
  \<^verbatim>\<open>new Cypher.NamedParam(name, value)\<close> of the query builder library: an object holding the
  value and the name.
\<close>

definition NamedParam :: "string \<Rightarrow> jsval \<Rightarrow> jsval" where
  "NamedParam n v = JObj (obj [(''value'', v), (''name'', JStr n)])"

text \<open>
  Modelled from the spec: the class \<^verbatim>\<open>Executor\<close> is not among the sources. The spec
  describes it as wrapping the execution handle and carrying the query-option and
  session-option overrides from the context; \<^verbatim>\<open>new Executor(options)\<close> is the object
  holding the options it was constructed with.
\<close>

definition new_Executor :: "jsobj \<Rightarrow> jsval" where
  "new_Executor options = JObj options"

definition NO_DRIVER_MESSAGE :: string where
  "NO_DRIVER_MESSAGE = ''A Neo4j driver instance must either be passed to Neo4jGraphQL on construction, or a driver, session or transaction passed as context.executionContext in each request.''"

section \<open>getAuthorizationContext\<close>

text \<open>
  Returns the calls made, the context object after the in-place write of \<^verbatim>\<open>context.jwt\<close>,
  and what the returned promise settles to: \<open>Inr\<close> the \<^verbatim>\<open>AuthorizationContext\<close> object when it
  resolves, \<open>Inl\<close> the exception when it rejects. The one call that can reject, \<^verbatim>\<open>decode\<close>,
  is inside \<^verbatim>\<open>try\<close>.
\<close>

text \<open>Lines 211 to 219, reached when the context carries claims or no decoder is configured.\<close>

definition authenticatedContext :: "jsobj \<Rightarrow> jsval" where
  "authenticatedContext context =
     JObj (obj [(''isAuthenticated'', JBool True),
                (''jwt'', obj_get context ''jwt''),
                (''jwtParam'', NamedParam ''jwt'' (obj_get context ''jwt'')),
                (''isAuthenticatedParam'', NamedParam ''isAuthenticated'' (JBool True))])"

definition getAuthorizationContext ::
  "jsobj \<Rightarrow> Neo4jGraphQLAuthorization option \<Rightarrow> jsval \<Rightarrow>
   event list \<times> jsobj \<times> (error + jsval)" where
  "getAuthorizationContext context authorization' jwtPayloadFieldsMap' =
     (if \<not> truthy (obj_get context ''jwt'')
      then (case authorization' of
              Some auth \<Rightarrow>
                (case decode auth context of
                   Inr jwt \<Rightarrow>
                     ([Decode context], obj_set ''jwt'' jwt context,
                      Inr (JObj (obj [(''isAuthenticated'', JBool True),
                                      (''jwt'', jwt),
                                      (''jwtParam'', NamedParam ''jwt'' jwt),
                                      (''isAuthenticatedParam'',
                                         NamedParam ''isAuthenticated'' (JBool True)),
                                      (''claims'', jwtPayloadFieldsMap')])))
                 | Inl e \<Rightarrow>
                     ([Decode context], context,
                      Inr (JObj (obj [(''isAuthenticated'', JBool False),
                                      (''jwtParam'', NamedParam ''jwt'' (JObj (obj []))),
                                      (''isAuthenticatedParam'',
                                         NamedParam ''isAuthenticated'' (JBool False))]))))
            | None \<Rightarrow> ([], context, Inr (authenticatedContext context)))
      else ([], context, Inr (authenticatedContext context)))"

section \<open>wrapResolver\<close>

text \<open>
  Lines 95 to 102: the context keeps its execution handle, or receives the driver, or the
  request fails. A context that is \<^verbatim>\<open>undefined\<close> (\<open>None\<close>) passes the optional chaining
  and fails at the assignment when a driver exists.
\<close>

definition ensureExecutionContext :: "jsval \<Rightarrow> jsobj option \<Rightarrow> error + jsobj" where
  "ensureExecutionContext driver' context =
     (case context of
        None \<Rightarrow>
          (if \<not> truthy driver' then Inl (Error NO_DRIVER_MESSAGE)
           else Inl (TypeError ''Cannot set properties of undefined''))
      | Some c \<Rightarrow>
          (if \<not> truthy (obj_get c ''executionContext'')
           then (if \<not> truthy driver' then Inl (Error NO_DRIVER_MESSAGE)
                 else Inr (obj_set ''executionContext'' driver' c))
           else Inr c))"

text \<open>Lines 124 to 137: the internal fields, the context spread over them, and the final spread.\<close>

definition composeContext ::
  "WrapResolverArguments \<Rightarrow> jsval \<Rightarrow> jsval \<Rightarrow> jsval \<Rightarrow> jsval \<Rightarrow> jsobj \<Rightarrow> jsobj" where
  "composeContext wargs subscriptionsEnabled executor neo4jDatabaseInfo authorizationContext context =
     (let internalContext =
            spread (obj [(''nodes'', nodes wargs),
                         (''relationships'', relationships wargs),
                         (''schemaModel'', schemaModel wargs),
                         (''features'', JObj (features wargs)),
                         (''subscriptionsEnabled'', subscriptionsEnabled),
                         (''executor'', executor),
                         (''neo4jDatabaseInfo'', neo4jDatabaseInfo),
                         (''authorization'', authorizationContext)])
                   context
      in spread context internalContext)"

text \<open>
  What one request leaves behind: the calls made, the caller's context object after the
  in-place writes, the module-level variable \<^verbatim>\<open>neo4jDatabaseInfo\<close>, and the value returned
  or the exception thrown.
\<close>

record outcome =
  calls :: "event list"
  context_after :: "jsobj option"
  neo4jDatabaseInfo_after :: jsval
  result :: "error + jsval"

definition invokeNext ::
  "WrapResolverArguments \<Rightarrow> resolver \<Rightarrow> jsval \<Rightarrow> jsval \<Rightarrow> jsval \<Rightarrow>
   event list \<Rightarrow> jsobj \<Rightarrow> jsval \<Rightarrow> jsval \<Rightarrow> jsval \<Rightarrow> jsval \<Rightarrow> outcome" where
  "invokeNext wargs next root args info
              calls0 context subscriptionsEnabled executor neo4jDatabaseInfo authorizationContext =
     (let composed = JObj (composeContext wargs subscriptionsEnabled executor neo4jDatabaseInfo
                             authorizationContext context)
      in \<lparr>calls = calls0 @ [Next root args composed info],
          context_after = Some context,
          neo4jDatabaseInfo_after = neo4jDatabaseInfo,
          result = next root args composed info\<rparr>)"

text \<open>
  The resolver returned by \<^verbatim>\<open>wrapResolver(args)(next)\<close>, run on one request. The imported
  \<^verbatim>\<open>getNeo4jDatabaseInfo\<close> is a parameter; the last argument is the module-level variable
  \<^verbatim>\<open>neo4jDatabaseInfo\<close> before the request (\<^verbatim>\<open>undefined\<close> when the module is loaded). The debug
  printing at the top has no effect on the result and is left out.
\<close>

definition wrapResolver ::
  "(jsval \<Rightarrow> error + jsval) \<Rightarrow> WrapResolverArguments \<Rightarrow> resolver \<Rightarrow>
   jsval \<Rightarrow> jsval \<Rightarrow> jsobj option \<Rightarrow> jsval \<Rightarrow> jsval \<Rightarrow> outcome" where
  "wrapResolver getNeo4jDatabaseInfo wargs next root args context info neo4jDatabaseInfo =
     (case ensureExecutionContext (driver wargs) context of
        Inl e \<Rightarrow>
          \<lparr>calls = [], context_after = context,
           neo4jDatabaseInfo_after = neo4jDatabaseInfo, result = Inl e\<rparr>
      | Inr context1 \<Rightarrow>
          (let subscriptionsEnabled = JBool (truthy (obj_get (features wargs) ''subscriptions''))
           in case getAuthorizationContext context1 (authorization wargs)
                     (jwtPayloadFieldsMap wargs) of
             (calls1, context2, Inl e) \<Rightarrow>
               \<lparr>calls = calls1, context_after = Some context2,
                neo4jDatabaseInfo_after = neo4jDatabaseInfo, result = Inl e\<rparr>
           | (calls1, context2, Inr authorizationContext) \<Rightarrow>
               (let context3 =
                      (if \<not> truthy (obj_get context2 ''jwt'')
                       then obj_set ''jwt'' (member authorizationContext ''jwt'') context2
                       else context2);
                    executor =
                      new_Executor
                        (obj [(''executionContext'', obj_get context3 ''executionContext''),
                              (''cypherQueryOptions'', obj_get context3 ''cypherQueryOptions''),
                              (''sessionConfig'', obj_get context3 ''sessionConfig'')]);
                    neo4jDatabaseInfo1 =
                      (if truthy (dbInfo wargs) then dbInfo wargs else neo4jDatabaseInfo)
                in if \<not> truthy (member neo4jDatabaseInfo1 ''version'')
                   then (case getNeo4jDatabaseInfo executor of
                           Inl e \<Rightarrow>
                             \<lparr>calls = calls1 @ [GetNeo4jDatabaseInfo executor],
                              context_after = Some context3,
                              neo4jDatabaseInfo_after = neo4jDatabaseInfo1,
                              result = Inl e\<rparr>
                         | Inr neo4jDatabaseInfo2 \<Rightarrow>
                             invokeNext wargs next root args info
                               (calls1 @ [GetNeo4jDatabaseInfo executor]) context3
                               subscriptionsEnabled executor neo4jDatabaseInfo2
                               authorizationContext)
                   else invokeNext wargs next root args info calls1 context3
                          subscriptionsEnabled executor neo4jDatabaseInfo1
                          authorizationContext)))"

text \<open>
  A sequence of requests, one after the other, each through its own wrapper: the
  module-level variable is the only state that passes from one request to the next.
\<close>

record request =
  req_wargs :: WrapResolverArguments
  req_next :: resolver
  req_root :: jsval
  req_args :: jsval
  req_context :: "jsobj option"
  req_info :: jsval

fun run_requests ::
  "(jsval \<Rightarrow> error + jsval) \<Rightarrow> jsval \<Rightarrow> request list \<Rightarrow> event list \<times> jsval" where
  "run_requests getNeo4jDatabaseInfo neo4jDatabaseInfo [] = ([], neo4jDatabaseInfo)"
| "run_requests getNeo4jDatabaseInfo neo4jDatabaseInfo (r # rs) =
     (let out = wrapResolver getNeo4jDatabaseInfo (req_wargs r) (req_next r) (req_root r)
                  (req_args r) (req_context r) (req_info r) neo4jDatabaseInfo
      in case run_requests getNeo4jDatabaseInfo (neo4jDatabaseInfo_after out) rs of
           (later, final) \<Rightarrow> (calls out @ later, final))"

text \<open>The calls that are version queries.\<close>

definition is_version_query :: "event \<Rightarrow> bool" where
  "is_version_query ev = (case ev of GetNeo4jDatabaseInfo _ \<Rightarrow> True | _ \<Rightarrow> False)"

section \<open>wrapSubscription\<close>

text \<open>
  The connection context is an object or \<^verbatim>\<open>undefined\<close>; \<open>context_value\<close> is the value that
  \<^verbatim>\<open>context\<close> denotes.
\<close>

definition context_value :: "jsobj option \<Rightarrow> jsval" where
  "context_value context = (case context of None \<Rightarrow> JUndefined | Some c \<Rightarrow> JObj c)"

text \<open>\<^verbatim>\<open>context?.connectionParams || {}\<close>\<close>

definition connectionParams :: "jsobj option \<Rightarrow> jsval" where
  "connectionParams context =
     (if truthy (member (context_value context) ''connectionParams'')
      then member (context_value context) ''connectionParams''
      else JObj (obj []))"

text \<open>Line 180: \<^verbatim>\<open>next(root, args, { ...context, ...contextParams, ...subscriptionContext }, info)\<close>\<close>

definition invokeSubscriptionNext ::
  "resolver \<Rightarrow> jsval \<Rightarrow> jsval \<Rightarrow> jsval \<Rightarrow> event list \<Rightarrow> jsobj option \<Rightarrow> jsval \<Rightarrow> jsobj \<Rightarrow>
   event list \<times> (error + jsval)" where
  "invokeSubscriptionNext next root args info calls0 context contextParams subscriptionContext =
     (let composed = JObj (spread (spread (props (context_value context)) (props contextParams))
                             subscriptionContext)
      in (calls0 @ [Next root args composed info], next root args composed info))"

definition wrapSubscription ::
  "WrapResolverArguments \<Rightarrow> resolver \<Rightarrow> jsval \<Rightarrow> jsval \<Rightarrow> jsobj option \<Rightarrow> jsval \<Rightarrow>
   event list \<times> (error + jsval)" where
  "wrapSubscription resolverArgs next root args context info =
     (let subscriptionsConfig = obj_get (features resolverArgs) ''subscriptions'';
          contextParams = connectionParams context
      in if \<not> truthy subscriptionsConfig
         then ([Next root args (context_value context) info],
               next root args (context_value context) info)
         else
           (let subscriptionContext =
                  obj [(''plugin'', subscriptionsConfig),
                       (''schemaModel'', schemaModel resolverArgs)]
            in if truthy (member (context_value context) ''jwt'')
               then invokeSubscriptionNext next root args info [] context contextParams
                      (obj_set ''jwt'' (member (context_value context) ''jwt'') subscriptionContext)
               else
                 (case authorization resolverArgs of
                    None \<Rightarrow>
                      invokeSubscriptionNext next root args info [] context contextParams
                        subscriptionContext
                  | Some auth \<Rightarrow>
                      (if \<not> truthy (member contextParams ''authorization'')
                          \<and> globalAuthentication auth
                       then ([], Inl (Neo4jError ''Unauthenticated'' AUTH_FORBIDDEN_ERROR))
                       else
                         (case decodeBearerTokenWithVerify auth
                                 (member contextParams ''authorization'') of
                            Inr jwt \<Rightarrow>
                              invokeSubscriptionNext next root args info
                                [DecodeBearerTokenWithVerify (member contextParams ''authorization'')]
                                context contextParams
                                (obj_set ''jwtPayloadFieldsMap'' (jwtPayloadFieldsMap resolverArgs)
                                   (obj_set ''jwt'' jwt subscriptionContext))
                          | Inl e \<Rightarrow>
                              (if globalAuthentication auth
                               then ([DecodeBearerTokenWithVerify
                                        (member contextParams ''authorization'')], Inl e)
                               else invokeSubscriptionNext next root args info
                                      [DecodeBearerTokenWithVerify
                                         (member contextParams ''authorization'')]
                                      context contextParams
                                      (obj_set ''jwt'' JUndefined subscriptionContext)))))))"

section \<open>Sample collaborators\<close>

text \<open>
  Concrete collaborators on which the model is run: a decoder that accepts any context with a
  non-empty \<^verbatim>\<open>token\<close> and any non-empty bearer token, wrapper arguments with the opaque
  fields filled in, a next step that returns the context it is given, and a version query that
  always answers.
\<close>

definition sample_authorization :: "bool \<Rightarrow> Neo4jGraphQLAuthorization" where
  "sample_authorization global =
     \<lparr>decode = (\<lambda>ctx. if truthy (obj_get ctx ''token'')
                           then Inr (JObj (obj [(''sub'', obj_get ctx ''token'')]))
                           else Inl (Error ''jwt malformed'')),
      decodeBearerTokenWithVerify =
        (\<lambda>token. if truthy token then Inr (JObj (obj [(''sub'', token)]))
                  else Inl (Error ''jwt malformed'')),
      globalAuthentication = global\<rparr>"

definition sample_wargs ::
  "jsval \<Rightarrow> jsval \<Rightarrow> jsobj \<Rightarrow> Neo4jGraphQLAuthorization option \<Rightarrow> WrapResolverArguments" where
  "sample_wargs driver' dbInfo' features' authorization' =
     \<lparr>driver = driver', nodes = JStr ''nodes'', relationships = JStr ''relationships'',
      jwtPayloadFieldsMap = JUndefined, schemaModel = JStr ''schemaModel'',
      dbInfo = dbInfo', features = features', authorization = authorization'\<rparr>"

definition sample_next :: resolver where
  "sample_next root args ctx info = Inr ctx"

definition sample_getNeo4jDatabaseInfo :: "jsval \<Rightarrow> error + jsval" where
  "sample_getNeo4jDatabaseInfo executor =
     Inr (JObj (obj [(''version'', JStr ''5.26.0''), (''edition'', JStr ''enterprise'')]))"

section \<open>Properties of the operation registry\<close>

lemma addAttributes_append:
  "addAttributes this (xs @ ys) =
     (case addAttributes this xs of Inl x \<Rightarrow> Inl x | Inr t \<Rightarrow> addAttributes t ys)"
  by (induction xs arbitrary: this) (auto split: sum.splits)

lemma addAnnotations_append:
  "addAnnotations key this (xs @ ys) =
     (case addAnnotations key this xs of Inl x \<Rightarrow> Inl x | Inr t \<Rightarrow> addAnnotations key t ys)"
  by (induction xs arbitrary: this) (auto split: sum.splits)

lemma addAttributes_fresh:
  "distinct (map Attribute.name attrs) \<Longrightarrow>
   \<forall>a \<in> set attrs. attributes this (Attribute.name a) = None \<Longrightarrow>
   addAttributes this attrs =
     Inr (this\<lparr>attributes := attributes this ++ map_of (attribute_entries attrs)\<rparr>)"
proof (induction attrs arbitrary: this)
  case Nil
  then show ?case by (simp add: attribute_entries_def)
next
  case (Cons a attrs)
  let ?this' = "this\<lparr>attributes := (attributes this)(Attribute.name a \<mapsto> a)\<rparr>"
  have step: "addAttribute this a = Inr ?this'"
    using Cons.prems(2) by (simp add: addAttribute_def)
  have d: "distinct (map Attribute.name attrs)" using Cons.prems(1) by simp
  have f: "\<forall>x \<in> set attrs. attributes ?this' (Attribute.name x) = None"
    using Cons.prems by (auto simp: image_iff)
  have notin: "map_of (attribute_entries attrs) (Attribute.name a) = None"
    using Cons.prems(1) by (force simp: attribute_entries_def map_of_eq_None_iff)
  have m: "(attributes this)(Attribute.name a \<mapsto> a) ++ map_of (attribute_entries attrs)
           = attributes this ++ map_of (attribute_entries (a # attrs))"
    using notin by (auto simp: attribute_entries_def map_add_def fun_eq_iff split: option.splits)
  have e: "?this'\<lparr>attributes := attributes ?this' ++ map_of (attribute_entries attrs)\<rparr>
           = this\<lparr>attributes := (attributes this)(Attribute.name a \<mapsto> a)
                                      ++ map_of (attribute_entries attrs)\<rparr>"
    by simp
  show ?case
    by (simp only: addAttributes.simps step sum.case Cons.IH[OF d f] e m)
qed

lemma addAnnotations_fresh:
  "distinct (map key anns) \<Longrightarrow>
   \<forall>n \<in> set anns. annotations this (key n) = None \<Longrightarrow>
   addAnnotations key this anns =
     Inr (this\<lparr>annotations := annotations this ++ map_of (annotation_entries key anns)\<rparr>)"
proof (induction anns arbitrary: this)
  case Nil
  then show ?case by (simp add: annotation_entries_def)
next
  case (Cons a anns)
  let ?this' = "this\<lparr>annotations := (annotations this)(key a \<mapsto> a)\<rparr>"
  have step: "addAnnotation key this a = Inr ?this'"
    using Cons.prems(2) by (simp add: addAnnotation_def)
  have d: "distinct (map key anns)" using Cons.prems(1) by simp
  have f: "\<forall>x \<in> set anns. annotations ?this' (key x) = None"
    using Cons.prems by (auto simp: image_iff)
  have notin: "map_of (annotation_entries key anns) (key a) = None"
    using Cons.prems(1) by (force simp: annotation_entries_def map_of_eq_None_iff)
  have m: "(annotations this)(key a \<mapsto> a) ++ map_of (annotation_entries key anns)
           = annotations this ++ map_of (annotation_entries key (a # anns))"
    using notin by (auto simp: annotation_entries_def map_add_def fun_eq_iff split: option.splits)
  have e: "?this'\<lparr>annotations := annotations ?this' ++ map_of (annotation_entries key anns)\<rparr>
           = this\<lparr>annotations := (annotations this)(key a \<mapsto> a)
                                      ++ map_of (annotation_entries key anns)\<rparr>"
    by simp
  show ?case
    by (simp only: addAnnotations.simps step sum.case Cons.IH[OF d f] e m)
qed

lemma map_of_attribute_entries:
  "distinct (map Attribute.name attrs) \<Longrightarrow> a \<in> set attrs \<Longrightarrow>
   map_of (attribute_entries attrs) (Attribute.name a) = Some a"
  by (induction attrs) (auto simp: attribute_entries_def image_iff)

lemma map_of_attribute_entries_dom:
  "n \<in> set (map Attribute.name attrs) \<Longrightarrow> map_of (attribute_entries attrs) n \<noteq> None"
  by (induction attrs) (auto simp: attribute_entries_def)

lemma map_of_annotation_entries_dom:
  "k \<in> set (map key anns) \<Longrightarrow> map_of (annotation_entries key anns) k \<noteq> None"
  by (induction anns) (auto simp: annotation_entries_def)

lemma new_Operation_duplicate_attribute:
  assumes "distinct (map Attribute.name pre)"
      and "Attribute.name a \<in> set (map Attribute.name pre)"
  shows "new_Operation key nm (pre @ a # post) anns =
           Inl (Neo4jGraphQLSchemaValidationError
                  (''Attribute '' @ Attribute.name a @ '' already exists in '' @ nm),
                \<lparr>name = nm, attributes = map_of (attribute_entries pre),
                 annotations = Map.empty\<rparr>)"
proof -
  let ?init = "\<lparr>name = nm, attributes = Map.empty, annotations = Map.empty\<rparr>
                 :: ('a, 'b) Operation"
  have pre: "addAttributes ?init pre =
               Inr \<lparr>name = nm, attributes = map_of (attribute_entries pre),
                    annotations = Map.empty\<rparr>"
    using addAttributes_fresh[OF assms(1), of ?init] by simp
  have "map_of (attribute_entries pre) (Attribute.name a) \<noteq> None"
    using assms(2) by (rule map_of_attribute_entries_dom)
  then show ?thesis
    by (simp add: new_Operation_def addAttributes_append pre addAttribute_def)
qed

lemma new_Operation_duplicate_annotation:
  assumes "distinct (map Attribute.name attrs)"
      and "distinct (map key pre)"
      and "key b \<in> set (map key pre)"
  shows "new_Operation key nm attrs (pre @ b # post) =
           Inl (Neo4jGraphQLSchemaValidationError
                  (''Annotation '' @ key b @ '' already exists in '' @ nm),
                \<lparr>name = nm, attributes = map_of (attribute_entries attrs),
                 annotations = map_of (annotation_entries key pre)\<rparr>)"
proof -
  let ?init = "\<lparr>name = nm, attributes = Map.empty, annotations = Map.empty\<rparr>
                 :: ('a, 'b) Operation"
  let ?mid = "\<lparr>name = nm, attributes = map_of (attribute_entries attrs),
               annotations = Map.empty\<rparr> :: ('a, 'b) Operation"
  have a: "addAttributes ?init attrs = Inr ?mid"
    using addAttributes_fresh[OF assms(1), of ?init] by simp
  have p: "addAnnotations key ?mid pre =
             Inr \<lparr>name = nm, attributes = map_of (attribute_entries attrs),
                  annotations = map_of (annotation_entries key pre)\<rparr>"
    using addAnnotations_fresh[OF assms(2), of ?mid] by simp
  have "map_of (annotation_entries key pre) (key b) \<noteq> None"
    using assms(3) by (rule map_of_annotation_entries_dom)
  then show ?thesis
    by (simp add: new_Operation_def a addAnnotations_append p addAnnotation_def)
qed

lemma new_Operation_unique:
  assumes "distinct (map Attribute.name attrs)" and "distinct (map key anns)"
  shows "new_Operation key nm attrs anns =
           Inr \<lparr>name = nm, attributes = map_of (attribute_entries attrs),
                annotations = map_of (annotation_entries key anns)\<rparr>"
proof -
  let ?init = "\<lparr>name = nm, attributes = Map.empty, annotations = Map.empty\<rparr>
                 :: ('a, 'b) Operation"
  let ?mid = "\<lparr>name = nm, attributes = map_of (attribute_entries attrs),
               annotations = Map.empty\<rparr> :: ('a, 'b) Operation"
  have a: "addAttributes ?init attrs = Inr ?mid"
    using addAttributes_fresh[OF assms(1), of ?init] by simp
  have p: "addAnnotations key ?mid anns =
             Inr \<lparr>name = nm, attributes = map_of (attribute_entries attrs),
                  annotations = map_of (annotation_entries key anns)\<rparr>"
    using addAnnotations_fresh[OF assms(2), of ?mid] by simp
  show ?thesis by (simp add: new_Operation_def a p)
qed

lemma not_distinct_map_split:
  assumes "\<not> distinct (map f xs)"
  shows "\<exists>pre a post. xs = pre @ a # post \<and> distinct (map f pre) \<and> f a \<in> set (map f pre)"
proof -
  from assms obtain ks k ls where k: "k \<in> set ks" "distinct ks" "map f xs = ks @ k # ls"
    using not_distinct_conv_prefix[of "map f xs"] by blast
  from k(3) obtain pre rest where p: "xs = pre @ rest" "map f pre = ks" "map f rest = k # ls"
    by (auto simp: map_eq_append_conv)
  from p(3) obtain a post where r: "rest = a # post" "f a = k"
    by (auto simp: map_eq_Cons_conv)
  show ?thesis
    using k p r by (intro exI[of _ pre] exI[of _ a] exI[of _ post]) auto
qed

text \<open>
  Claim C10. Constructing an \<^verbatim>\<open>Operation\<close> adds the attributes, then the annotations, in list
  order. If the attribute list reads \<open>pre @ a # post\<close>, where the names in \<open>pre\<close> are pairwise
  different and the name of \<open>a\<close> is among them, construction throws the schema validation error
  naming \<open>a\<close>, at a moment when exactly the attributes of \<open>pre\<close> are registered (the earlier
  entry of that name is kept) and no annotation is. If the attribute names are pairwise
  different and the annotation list reads \<open>npre @ b # npost\<close> with the keys in \<open>npre\<close>
  pairwise different and the key of \<open>b\<close> among them, construction throws the error naming that
  key, with all attributes and exactly the annotations of \<open>npre\<close> registered. Hence any list
  with two attributes of one name, or two annotations of one key, makes construction fail with a
  schema validation error. If names and keys are all pairwise different, construction
  succeeds and \<^verbatim>\<open>findAttribute\<close> returns every attribute of the list under its name.
\<close>

theorem operation_construction_uniqueness:
  "(distinct (map Attribute.name pre) \<and> Attribute.name a \<in> set (map Attribute.name pre) \<longrightarrow>
      new_Operation key nm (pre @ a # post) anns =
        Inl (Neo4jGraphQLSchemaValidationError
               (''Attribute '' @ Attribute.name a @ '' already exists in '' @ nm),
             \<lparr>name = nm, attributes = map_of (attribute_entries pre),
              annotations = Map.empty\<rparr>))
   \<and> (distinct (map Attribute.name attrs) \<and> distinct (map key npre)
        \<and> key b \<in> set (map key npre) \<longrightarrow>
      new_Operation key nm attrs (npre @ b # npost) =
        Inl (Neo4jGraphQLSchemaValidationError
               (''Annotation '' @ key b @ '' already exists in '' @ nm),
             \<lparr>name = nm, attributes = map_of (attribute_entries attrs),
              annotations = map_of (annotation_entries key npre)\<rparr>))
   \<and> (\<not> distinct (map Attribute.name attrs) \<or> \<not> distinct (map key anns) \<longrightarrow>
      (\<exists>msg this. new_Operation key nm attrs anns =
                     Inl (Neo4jGraphQLSchemaValidationError msg, this)))
   \<and> (distinct (map Attribute.name attrs) \<and> distinct (map key anns) \<longrightarrow>
      (\<exists>this. new_Operation key nm attrs anns = Inr this
              \<and> (\<forall>x \<in> set attrs. findAttribute this (Attribute.name x) = Some x)))"
proof (intro conjI impI)
  assume "distinct (map Attribute.name pre) \<and> Attribute.name a \<in> set (map Attribute.name pre)"
  then show "new_Operation key nm (pre @ a # post) anns =
        Inl (Neo4jGraphQLSchemaValidationError
               (''Attribute '' @ Attribute.name a @ '' already exists in '' @ nm),
             \<lparr>name = nm, attributes = map_of (attribute_entries pre),
              annotations = Map.empty\<rparr>)"
    by (simp add: new_Operation_duplicate_attribute)
next
  assume "distinct (map Attribute.name attrs) \<and> distinct (map key npre)
        \<and> key b \<in> set (map key npre)"
  then show "new_Operation key nm attrs (npre @ b # npost) =
        Inl (Neo4jGraphQLSchemaValidationError
               (''Annotation '' @ key b @ '' already exists in '' @ nm),
             \<lparr>name = nm, attributes = map_of (attribute_entries attrs),
              annotations = map_of (annotation_entries key npre)\<rparr>)"
    by (simp add: new_Operation_duplicate_annotation)
next
  assume dup: "\<not> distinct (map Attribute.name attrs) \<or> \<not> distinct (map key anns)"
  show "\<exists>msg this. new_Operation key nm attrs anns =
                     Inl (Neo4jGraphQLSchemaValidationError msg, this)"
  proof (cases "distinct (map Attribute.name attrs)")
    case False
    then obtain p x q where "attrs = p @ x # q" "distinct (map Attribute.name p)"
        "Attribute.name x \<in> set (map Attribute.name p)"
      using not_distinct_map_split by blast
    then show ?thesis
      using new_Operation_duplicate_attribute[of p x key nm q anns] by blast
  next
    case True
    with dup have "\<not> distinct (map key anns)" by simp
    then obtain p x q where "anns = p @ x # q" "distinct (map key p)"
        "key x \<in> set (map key p)"
      using not_distinct_map_split by blast
    then show ?thesis
      using new_Operation_duplicate_annotation[OF True, of key p x nm q] by blast
  qed
next
  assume u: "distinct (map Attribute.name attrs) \<and> distinct (map key anns)"
  then have "new_Operation key nm attrs anns =
           Inr \<lparr>name = nm, attributes = map_of (attribute_entries attrs),
                annotations = map_of (annotation_entries key anns)\<rparr>"
    by (simp add: new_Operation_unique)
  moreover have "\<forall>x \<in> set attrs.
      findAttribute \<lparr>name = nm, attributes = map_of (attribute_entries attrs),
                annotations = map_of (annotation_entries key anns)\<rparr> (Attribute.name x) = Some x"
    using u by (simp add: findAttribute_def map_of_attribute_entries)
  ultimately show "\<exists>this. new_Operation key nm attrs anns = Inr this
              \<and> (\<forall>x \<in> set attrs. findAttribute this (Attribute.name x) = Some x)"
    by blast
qed

text \<open>
  The four cases of C10 on an operation \<^verbatim>\<open>Query\<close> with attributes \<^verbatim>\<open>id\<close> and \<^verbatim>\<open>title\<close>.
\<close>

theorem operation_construction_uniqueness_witness:
  "new_Operation (\<lambda>n::string. n) ''Query''
       ([\<lparr>Attribute.name = ''id''\<rparr>, \<lparr>Attribute.name = ''title''\<rparr>]
          @ \<lparr>Attribute.name = ''id''\<rparr> # []) [''cypher''] =
     Inl (Neo4jGraphQLSchemaValidationError ''Attribute id already exists in Query'',
          \<lparr>name = ''Query'',
           attributes = map_of (attribute_entries
                          [\<lparr>Attribute.name = ''id''\<rparr>, \<lparr>Attribute.name = ''title''\<rparr>]),
           annotations = Map.empty\<rparr>)
   \<and> new_Operation (\<lambda>n::string. n) ''Query''
       [\<lparr>Attribute.name = ''id''\<rparr>, \<lparr>Attribute.name = ''title''\<rparr>]
       ([''cypher''] @ ''cypher'' # []) =
     Inl (Neo4jGraphQLSchemaValidationError ''Annotation cypher already exists in Query'',
          \<lparr>name = ''Query'',
           attributes = map_of (attribute_entries
                          [\<lparr>Attribute.name = ''id''\<rparr>, \<lparr>Attribute.name = ''title''\<rparr>]),
           annotations = map_of (annotation_entries (\<lambda>n. n) [''cypher''])\<rparr>)
   \<and> (\<exists>this. new_Operation (\<lambda>n::string. n) ''Query''
                [\<lparr>Attribute.name = ''id''\<rparr>, \<lparr>Attribute.name = ''title''\<rparr>]
                [''cypher'', ''authentication''] = Inr this
           \<and> findAttribute this ''id'' = Some \<lparr>Attribute.name = ''id''\<rparr>
           \<and> findAttribute this ''title'' = Some \<lparr>Attribute.name = ''title''\<rparr>)
   \<and> (\<exists>msg this. new_Operation (\<lambda>n::string. n) ''Query''
                [\<lparr>Attribute.name = ''title''\<rparr>, \<lparr>Attribute.name = ''title''\<rparr>]
                [''cypher'', ''authentication''] =
              Inl (Neo4jGraphQLSchemaValidationError msg, this))"
proof -
  let ?id = "\<lparr>Attribute.name = ''id''\<rparr>" and ?title = "\<lparr>Attribute.name = ''title''\<rparr>"
  note t1 = operation_construction_uniqueness
              [where pre = "[?id, ?title]" and a = ?id and post = "[]" and key = "\<lambda>n::string. n"
                 and nm = "''Query''" and anns = "[''cypher'']"
                 and attrs = "[?id, ?title]" and npre = "[''cypher'']" and b = "''cypher''"
                 and npost = "[]"]
  note t2 = operation_construction_uniqueness
              [where pre = "[?id, ?title]" and a = ?id and post = "[]" and key = "\<lambda>n::string. n"
                 and nm = "''Query''" and anns = "[''cypher'', ''authentication'']"
                 and attrs = "[?id, ?title]" and npre = "[''cypher'']" and b = "''cypher''"
                 and npost = "[]"]
  note t3 = operation_construction_uniqueness
              [where pre = "[?id, ?title]" and a = ?id and post = "[]" and key = "\<lambda>n::string. n"
                 and nm = "''Query''" and anns = "[''cypher'', ''authentication'']"
                 and attrs = "[?title, ?title]" and npre = "[''cypher'']" and b = "''cypher''"
                 and npost = "[]"]
  have "\<exists>msg this. new_Operation (\<lambda>n::string. n) ''Query'' [?title, ?title]
                [''cypher'', ''authentication''] =
              Inl (Neo4jGraphQLSchemaValidationError msg, this)"
    using t3 by simp
  then show ?thesis
    using t1 t2 by simp
qed

section \<open>Objects\<close>

lemma obj_get_obj_set: "obj_get (obj_set k v m) k' = (if k = k' then v else obj_get m k')"
  by (simp add: obj_get_def obj_set_def)

lemma obj_get_spread:
  "obj_get (spread a b) k = (if k |\<in>| fmdom b then obj_get b k else obj_get a k)"
  by (simp add: obj_get_def spread_def)

lemma obj_get_obj:
  "obj_get (obj kvs) k = (case map_of kvs k of None \<Rightarrow> JUndefined | Some v \<Rightarrow> v)"
  by (simp add: obj_get_def obj_def fmlookup_of_list)

lemma fmdom_obj_set: "fmdom (obj_set k v m) = finsert k (fmdom m)"
  by (simp add: obj_set_def)

lemma fmdom_spread: "fmdom (spread a b) = fmdom a |\<union>| fmdom b"
  by (simp add: spread_def)

lemma fmdom_obj: "fmdom (obj kvs) = fset_of_list (map fst kvs)"
  by (simp add: obj_def)

lemma member_context_value:
  "member (context_value ctx) k = (case ctx of None \<Rightarrow> JUndefined | Some c \<Rightarrow> obj_get c k)"
  by (simp add: context_value_def split: option.splits)

section \<open>Properties of getAuthorizationContext\<close>

text \<open>
  Claim C2. When the context carries no claims (\<^verbatim>\<open>context.jwt\<close> is falsy), a decoder is
  configured and \<^verbatim>\<open>decode\<close> throws, \<^verbatim>\<open>getAuthorizationContext\<close> resolves (it does not reject with
  the decoder's exception) to a verdict whose \<^verbatim>\<open>isAuthenticated\<close> is \<^verbatim>\<open>false\<close> and whose
  \<^verbatim>\<open>jwtParam\<close> is the named parameter \<^verbatim>\<open>jwt\<close> wrapping the empty object; the decoder was
  called once and the context is left as it was.
\<close>

theorem getAuthorizationContext_decode_failure:
  assumes "\<not> truthy (obj_get ctx ''jwt'')"
      and "decode auth ctx = Inl e"
  shows "\<exists>verdict.
           getAuthorizationContext ctx (Some auth) claims =
             ([Decode ctx], ctx, Inr verdict)
         \<and> member verdict ''isAuthenticated'' = JBool False
         \<and> member verdict ''jwtParam'' = NamedParam ''jwt'' (JObj (obj []))
         \<and> member (member verdict ''jwtParam'') ''value'' = JObj (obj [])"
  using assms
  by (simp add: getAuthorizationContext_def obj_get_obj NamedParam_def)

text \<open>
  Claim C3. When the context already carries claims (\<^verbatim>\<open>context.jwt\<close> is truthy), whatever
  decoder is configured, failing or not, or none: no call is made, the context is unchanged,
  and the verdict is authenticated, with \<^verbatim>\<open>jwt\<close>, \<^verbatim>\<open>jwtParam\<close> and \<^verbatim>\<open>isAuthenticatedParam\<close>
  built from the claims of the context.
\<close>

theorem getAuthorizationContext_reuses_claims:
  assumes "truthy (obj_get ctx ''jwt'')"
  shows "getAuthorizationContext ctx authorization' claims =
           ([], ctx,
            Inr (JObj (obj [(''isAuthenticated'', JBool True),
                            (''jwt'', obj_get ctx ''jwt''),
                            (''jwtParam'', NamedParam ''jwt'' (obj_get ctx ''jwt'')),
                            (''isAuthenticatedParam'',
                               NamedParam ''isAuthenticated'' (JBool True))])))"
  using assms by (simp add: getAuthorizationContext_def authenticatedContext_def)

text \<open>
  Claim C4, as amended. When no decoder is configured and the context carries no claims
  (\<^verbatim>\<open>context.jwt\<close> is falsy, the test of line 188), \<^verbatim>\<open>getAuthorizationContext\<close> resolves,
  without any call and with the context unchanged, to a verdict with \<^verbatim>\<open>isAuthenticated\<close>
  \<^verbatim>\<open>true\<close> whose \<^verbatim>\<open>jwt\<close> is \<^verbatim>\<open>context.jwt\<close> itself: \<^verbatim>\<open>undefined\<close> when the context has no
  \<^verbatim>\<open>jwt\<close> or an \<^verbatim>\<open>undefined\<close> one, and the falsy value otherwise.
\<close>

theorem getAuthorizationContext_no_decoder:
  assumes "\<not> truthy (obj_get ctx ''jwt'')"
  shows "\<exists>verdict.
           getAuthorizationContext ctx None claims = ([], ctx, Inr verdict)
         \<and> member verdict ''isAuthenticated'' = JBool True
         \<and> member verdict ''jwt'' = obj_get ctx ''jwt''"
  using assms
  by (simp add: getAuthorizationContext_def authenticatedContext_def obj_get_obj)

section \<open>Properties of wrapSubscription\<close>

text \<open>
  Claim C1, as amended. When the subscriptions feature is configured, a decoder is configured
  with \<^verbatim>\<open>globalAuthentication\<close> enabled, the connection context carries no claims and the
  connection parameters carry no authorization token (both falsy), \<^verbatim>\<open>wrapSubscription\<close> throws
  \<^verbatim>\<open>Neo4jError("Unauthenticated", AUTH_FORBIDDEN_ERROR)\<close> and has made no call: neither the
  decoder nor the next step is invoked.
\<close>

theorem wrapSubscription_rejects_missing_token:
  assumes "truthy (obj_get (features resolverArgs) ''subscriptions'')"
      and "authorization resolverArgs = Some auth"
      and "globalAuthentication auth"
      and "\<not> truthy (member (context_value ctx) ''jwt'')"
      and "\<not> truthy (member (connectionParams ctx) ''authorization'')"
  shows "wrapSubscription resolverArgs nxt root args ctx info =
           ([], Inl (Neo4jError ''Unauthenticated'' AUTH_FORBIDDEN_ERROR))"
  using assms by (simp add: wrapSubscription_def Let_def)

text \<open>
  Claim C6. When the connection context carries claims (\<^verbatim>\<open>context.jwt\<close> is truthy),
  \<^verbatim>\<open>wrapSubscription\<close> makes exactly one call, to the next step, with a context whose \<^verbatim>\<open>jwt\<close>
  is the one of the connection context, and returns what the next step returns: no decoder
  is called and the wrapper throws nothing of its own, whatever the decoder, the
  \<^verbatim>\<open>globalAuthentication\<close> setting, the connection parameters and the subscriptions feature.
\<close>

theorem wrapSubscription_reuses_context_claims:
  assumes "truthy (member (context_value ctx) ''jwt'')"
  shows "\<exists>composed.
           wrapSubscription resolverArgs nxt root args ctx info =
             ([Next root args composed info], nxt root args composed info)
         \<and> member composed ''jwt'' = member (context_value ctx) ''jwt''"
  using assms
  by (simp add: wrapSubscription_def invokeSubscriptionNext_def Let_def
                obj_get_spread obj_get_obj_set fmdom_obj_set)

text \<open>
  Claim C9, as amended. When the subscriptions feature is not configured, \<^verbatim>\<open>wrapSubscription\<close>
  makes exactly one call, to the next step, with the very context it was given (the
  connection parameters are not merged into it), and returns what the next step returns: no
  decoder is called and no authentication error is thrown.
\<close>

theorem wrapSubscription_disabled_passes_context:
  assumes "\<not> truthy (obj_get (features resolverArgs) ''subscriptions'')"
  shows "wrapSubscription resolverArgs nxt root args ctx info =
           ([Next root args (context_value ctx) info],
            nxt root args (context_value ctx) info)"
  using assms by (simp add: wrapSubscription_def Let_def)

section \<open>Properties of wrapResolver\<close>

lemma composeContext_caller_field:
  "k |\<in>| fmdom c \<Longrightarrow> obj_get (composeContext wargs s e n a c) k = obj_get c k"
  by (simp add: composeContext_def Let_def obj_get_spread fmdom_spread)

lemma getAuthorizationContext_calls:
  "getAuthorizationContext c a m = (cs, c', v) \<Longrightarrow> cs = [] \<or> cs = [Decode c]"
  by (auto simp: getAuthorizationContext_def split: if_splits option.splits sum.splits)

lemma getAuthorizationContext_Inr:
  "\<exists>cs c' v. getAuthorizationContext c a m = (cs, c', Inr v)"
  by (auto simp: getAuthorizationContext_def split: if_splits option.splits sum.splits)

text \<open>
  Claim C5. Whenever \<^verbatim>\<open>wrapResolver\<close> calls the next step, for every property \<open>k\<close> of the
  caller's context object as the wrapper left it (with \<^verbatim>\<open>executionContext\<close> and \<^verbatim>\<open>jwt\<close>
  written), the composed context passed to the next step has the caller's value under \<open>k\<close>,
  also when \<open>k\<close> is one of the internally derived names.
\<close>

theorem wrapResolver_caller_fields_override:
  assumes "Next r a composed i
             \<in> set (calls (wrapResolver getInfo wargs nxt root args ctx info cache))"
      and "context_after (wrapResolver getInfo wargs nxt root args ctx info cache) = Some c"
      and "k |\<in>| fmdom c"
  shows "member composed k = obj_get c k"
proof (cases "ensureExecutionContext (driver wargs) ctx")
  case (Inl e)
  with assms(1) show ?thesis by (simp add: wrapResolver_def)
next
  case (Inr c1)
  obtain cs c2 v where g: "getAuthorizationContext c1 (authorization wargs)
                             (jwtPayloadFieldsMap wargs) = (cs, c2, Inr v)"
    using getAuthorizationContext_Inr by blast
  have cs: "Next r a composed i \<notin> set cs"
    using getAuthorizationContext_calls[OF g] by auto
  show ?thesis
    using assms cs
    by (auto simp: wrapResolver_def Inr g Let_def invokeNext_def composeContext_caller_field
             split: if_splits sum.splits)
qed

lemma truthy_member: "truthy (member v k) \<Longrightarrow> truthy v"
  by (cases v) simp_all

lemma getAuthorizationContext_other_field:
  "getAuthorizationContext c a m = (cs, c', v) \<Longrightarrow> k \<noteq> ''jwt'' \<Longrightarrow> obj_get c' k = obj_get c k"
  by (auto simp: getAuthorizationContext_def obj_get_obj_set
           split: if_splits option.splits sum.splits)

lemma ensureExecutionContext_present:
  "truthy (obj_get c ''executionContext'') \<Longrightarrow> ensureExecutionContext d (Some c) = Inr c"
  by (simp add: ensureExecutionContext_def)

lemma wrapResolver_no_handle:
  assumes "\<not> truthy (member (context_value ctx) ''executionContext'')"
      and "\<not> truthy (driver wargs)"
  shows "wrapResolver getInfo wargs nxt root args ctx info cache =
           \<lparr>calls = [], context_after = ctx, neo4jDatabaseInfo_after = cache,
            result = Inl (Error NO_DRIVER_MESSAGE)\<rparr>"
  using assms
  by (simp add: wrapResolver_def ensureExecutionContext_def member_context_value
           split: option.splits)

lemma wrapResolver_driver_irrelevant:
  assumes "truthy (obj_get c ''executionContext'')"
  shows "wrapResolver getInfo (wargs\<lparr>driver := d\<rparr>) nxt root args (Some c) info cache =
         wrapResolver getInfo wargs nxt root args (Some c) info cache"
proof -
  obtain cs c2 v where g: "getAuthorizationContext c (authorization wargs)
                             (jwtPayloadFieldsMap wargs) = (cs, c2, Inr v)"
    using getAuthorizationContext_Inr by blast
  have n: "invokeNext (wargs\<lparr>driver := d\<rparr>) = invokeNext wargs"
    by (intro ext) (simp add: invokeNext_def composeContext_def)
  show ?thesis
    by (simp add: wrapResolver_def ensureExecutionContext_present[OF assms] g n Let_def
             split: sum.splits)
qed

lemma wrapResolver_handle_kept:
  assumes "truthy (obj_get c ''executionContext'')"
  shows "(\<exists>c'. context_after (wrapResolver getInfo wargs nxt root args (Some c) info cache)
                 = Some c'
              \<and> obj_get c' ''executionContext'' = obj_get c ''executionContext'')
       \<and> (\<forall>ex. GetNeo4jDatabaseInfo ex
                  \<in> set (calls (wrapResolver getInfo wargs nxt root args (Some c) info cache))
               \<longrightarrow> member ex ''executionContext'' = obj_get c ''executionContext'')
       \<and> (\<forall>r a cc i. Next r a cc i
                  \<in> set (calls (wrapResolver getInfo wargs nxt root args (Some c) info cache))
               \<longrightarrow> member cc ''executionContext'' = obj_get c ''executionContext'')"
proof -
  obtain cs c2 v where g: "getAuthorizationContext c (authorization wargs)
                             (jwtPayloadFieldsMap wargs) = (cs, c2, Inr v)"
    using getAuthorizationContext_Inr by blast
  have cs: "cs = [] \<or> cs = [Decode c]"
    using getAuthorizationContext_calls[OF g] .
  have h: "obj_get c2 ''executionContext'' = obj_get c ''executionContext''"
    using getAuthorizationContext_other_field[OF g] by simp
  have k: "''executionContext'' |\<in>| fmdom c2 \<or> obj_get c2 ''executionContext'' = JUndefined"
    by (auto simp: obj_get_def fmlookup_dom_iff split: option.splits)
  have k': "''executionContext'' |\<in>| fmdom c2"
    using k h assms by auto
  show ?thesis
    using cs h k'
    by (auto simp: wrapResolver_def ensureExecutionContext_present[OF assms] g Let_def
                   invokeNext_def composeContext_caller_field obj_get_obj_set
                   new_Executor_def obj_get_obj fmdom_obj_set
             split: sum.splits)
qed

text \<open>
  Claim C7. When the context has no execution handle (\<^verbatim>\<open>context?.executionContext\<close> is falsy)
  and no driver was given, \<^verbatim>\<open>wrapResolver\<close> throws the configuration error having made no call
  (no decoding, no version query, no next step) and having left the context and the version
  cache as they were. When the context carries a handle, the driver plays no part (the
  outcome is the same for every driver \<open>d\<close>), the context keeps its handle, and the executor
  given to the version query and the context given to the next step carry that handle.
\<close>

theorem wrapResolver_execution_handle:
  "(\<not> truthy (member (context_value ctx) ''executionContext'') \<and> \<not> truthy (driver wargs) \<longrightarrow>
      wrapResolver getInfo wargs nxt root args ctx info cache =
        \<lparr>calls = [], context_after = ctx, neo4jDatabaseInfo_after = cache,
         result = Inl (Error NO_DRIVER_MESSAGE)\<rparr>)
   \<and> (truthy (obj_get c ''executionContext'') \<longrightarrow>
        wrapResolver getInfo (wargs\<lparr>driver := d\<rparr>) nxt root args (Some c) info cache =
          wrapResolver getInfo wargs nxt root args (Some c) info cache
      \<and> (\<exists>c'. context_after (wrapResolver getInfo wargs nxt root args (Some c) info cache)
                 = Some c'
              \<and> obj_get c' ''executionContext'' = obj_get c ''executionContext'')
      \<and> (\<forall>ex. GetNeo4jDatabaseInfo ex
                  \<in> set (calls (wrapResolver getInfo wargs nxt root args (Some c) info cache))
               \<longrightarrow> member ex ''executionContext'' = obj_get c ''executionContext'')
      \<and> (\<forall>r a cc i. Next r a cc i
                  \<in> set (calls (wrapResolver getInfo wargs nxt root args (Some c) info cache))
               \<longrightarrow> member cc ''executionContext'' = obj_get c ''executionContext''))"
proof (intro conjI impI)
  assume "\<not> truthy (member (context_value ctx) ''executionContext'')
          \<and> \<not> truthy (driver wargs)"
  then show "wrapResolver getInfo wargs nxt root args ctx info cache =
        \<lparr>calls = [], context_after = ctx, neo4jDatabaseInfo_after = cache,
         result = Inl (Error NO_DRIVER_MESSAGE)\<rparr>"
    by (simp add: wrapResolver_no_handle)
next
  assume "truthy (obj_get c ''executionContext'')"
  then show "wrapResolver getInfo (wargs\<lparr>driver := d\<rparr>) nxt root args (Some c) info cache =
          wrapResolver getInfo wargs nxt root args (Some c) info cache"
    by (rule wrapResolver_driver_irrelevant)
next
  assume h: "truthy (obj_get c ''executionContext'')"
  show "\<exists>c'. context_after (wrapResolver getInfo wargs nxt root args (Some c) info cache)
                 = Some c'
              \<and> obj_get c' ''executionContext'' = obj_get c ''executionContext''"
    using wrapResolver_handle_kept[OF h] by blast
next
  assume h: "truthy (obj_get c ''executionContext'')"
  show "\<forall>ex. GetNeo4jDatabaseInfo ex
                  \<in> set (calls (wrapResolver getInfo wargs nxt root args (Some c) info cache))
               \<longrightarrow> member ex ''executionContext'' = obj_get c ''executionContext''"
    using wrapResolver_handle_kept[OF h] by blast
next
  assume h: "truthy (obj_get c ''executionContext'')"
  show "\<forall>r a cc i. Next r a cc i
                  \<in> set (calls (wrapResolver getInfo wargs nxt root args (Some c) info cache))
               \<longrightarrow> member cc ''executionContext'' = obj_get c ''executionContext''"
    using wrapResolver_handle_kept[OF h] by blast
qed

lemma wrapResolver_cached:
  assumes "truthy (member cache ''version'')" and "\<not> truthy (dbInfo wargs)"
  shows "(\<forall>ev \<in> set (calls (wrapResolver getInfo wargs nxt root args ctx info cache)).
            \<not> is_version_query ev)
       \<and> neo4jDatabaseInfo_after (wrapResolver getInfo wargs nxt root args ctx info cache)
           = cache"
proof (cases "ensureExecutionContext (driver wargs) ctx")
  case (Inl e)
  then show ?thesis by (simp add: wrapResolver_def)
next
  case (Inr c1)
  obtain cs c2 v where g: "getAuthorizationContext c1 (authorization wargs)
                             (jwtPayloadFieldsMap wargs) = (cs, c2, Inr v)"
    using getAuthorizationContext_Inr by blast
  have cs: "cs = [] \<or> cs = [Decode c1]"
    using getAuthorizationContext_calls[OF g] .
  show ?thesis
    using assms cs
    by (auto simp: wrapResolver_def Inr g Let_def invokeNext_def is_version_query_def)
qed

lemma run_requests_cached:
  assumes "truthy (member cache ''version'')"
      and "\<forall>r \<in> set reqs. \<not> truthy (dbInfo (req_wargs r))"
  shows "(\<forall>ev \<in> set (fst (run_requests getInfo cache reqs)). \<not> is_version_query ev)
       \<and> snd (run_requests getInfo cache reqs) = cache"
  using assms
proof (induction reqs)
  case Nil
  then show ?case by simp
next
  case (Cons r rs)
  have one: "(\<forall>ev \<in> set (calls (wrapResolver getInfo (req_wargs r) (req_next r) (req_root r)
                  (req_args r) (req_context r) (req_info r) cache)). \<not> is_version_query ev)
       \<and> neo4jDatabaseInfo_after (wrapResolver getInfo (req_wargs r) (req_next r) (req_root r)
                  (req_args r) (req_context r) (req_info r) cache) = cache"
    using Cons.prems by (intro wrapResolver_cached) simp_all
  have rest: "(\<forall>ev \<in> set (fst (run_requests getInfo cache rs)). \<not> is_version_query ev)
       \<and> snd (run_requests getInfo cache rs) = cache"
    using Cons by simp
  show ?case
    using one rest by (auto simp: Let_def split: prod.splits)
qed

lemma wrapResolver_override:
  assumes "truthy (member (dbInfo wargs) ''version'')"
  shows "(\<forall>ev \<in> set (calls (wrapResolver getInfo wargs nxt root args ctx info cache)).
            \<not> is_version_query ev)
       \<and> (ctx = Some c
            \<and> (truthy (obj_get c ''executionContext'') \<or> truthy (driver wargs)) \<longrightarrow>
          neo4jDatabaseInfo_after (wrapResolver getInfo wargs nxt root args ctx info cache)
            = dbInfo wargs)
       \<and> (\<forall>r a cc i c'.
            Next r a cc i
              \<in> set (calls (wrapResolver getInfo wargs nxt root args ctx info cache))
            \<and> context_after (wrapResolver getInfo wargs nxt root args ctx info cache)
                = Some c'
            \<and> ''neo4jDatabaseInfo'' |\<notin>| fmdom c' \<longrightarrow>
            member cc ''neo4jDatabaseInfo'' = dbInfo wargs)"
proof (cases "ensureExecutionContext (driver wargs) ctx")
  case (Inl e)
  then show ?thesis
    by (auto simp: wrapResolver_def ensureExecutionContext_def split: option.splits if_splits)
next
  case (Inr c1)
  obtain cs c2 v where g: "getAuthorizationContext c1 (authorization wargs)
                             (jwtPayloadFieldsMap wargs) = (cs, c2, Inr v)"
    using getAuthorizationContext_Inr by blast
  have cs: "cs = [] \<or> cs = [Decode c1]"
    using getAuthorizationContext_calls[OF g] .
  have t: "truthy (dbInfo wargs)" using assms by (rule truthy_member)
  let ?out = "wrapResolver getInfo wargs nxt root args ctx info cache"
  have a: "\<forall>ev \<in> set (calls ?out). \<not> is_version_query ev"
    using assms t cs
    by (auto simp: wrapResolver_def Inr g Let_def invokeNext_def is_version_query_def)
  have b: "neo4jDatabaseInfo_after ?out = dbInfo wargs"
    using assms t by (simp add: wrapResolver_def Inr g Let_def invokeNext_def)
  have c: "\<forall>r a cc i c'. Next r a cc i \<in> set (calls ?out) \<and> context_after ?out = Some c'
              \<and> ''neo4jDatabaseInfo'' |\<notin>| fmdom c' \<longrightarrow>
            member cc ''neo4jDatabaseInfo'' = dbInfo wargs"
    using assms t cs
    by (auto simp: wrapResolver_def Inr g Let_def invokeNext_def
                   composeContext_def obj_get_spread fmdom_spread fmdom_obj obj_get_obj)
  show ?thesis using a b c by blast
qed

lemmas resolver_run_simps = wrapResolver_def ensureExecutionContext_def getAuthorizationContext_def
  authenticatedContext_def invokeNext_def Let_def obj_get_obj obj_get_obj_set
  sample_wargs_def sample_next_def sample_getNeo4jDatabaseInfo_def sample_authorization_def
  new_Executor_def

lemmas subscription_run_simps = wrapSubscription_def invokeSubscriptionNext_def connectionParams_def
  context_value_def Let_def obj_get_obj obj_get_obj_set obj_get_spread fmdom_obj fmdom_obj_set
  fmdom_spread sample_wargs_def sample_next_def sample_authorization_def

text \<open>
  Claim C8, as amended. Over any sequence of requests in which no wrapper has an override,
  starting with a cache that holds a value with a version: no request queries the version, and
  the cache is unchanged at the end. When a wrapper has an override \<^verbatim>\<open>dbInfo\<close> that carries a
  version, a request through it makes no version query; if the request has or is given an
  execution handle, the cache holds the override afterwards; and the context passed to the next
  step carries the override as \<^verbatim>\<open>neo4jDatabaseInfo\<close> unless the caller's context has a
  property of that name.
\<close>

theorem wrapResolver_version_cache:
  "(truthy (member cache ''version'')
      \<and> (\<forall>r \<in> set reqs. \<not> truthy (dbInfo (req_wargs r))) \<longrightarrow>
      (\<forall>ev \<in> set (fst (run_requests getInfo cache reqs)). \<not> is_version_query ev)
      \<and> snd (run_requests getInfo cache reqs) = cache)
   \<and> (truthy (member (dbInfo wargs) ''version'') \<longrightarrow>
      (\<forall>ev \<in> set (calls (wrapResolver getInfo wargs nxt root args ctx info cache)).
            \<not> is_version_query ev)
      \<and> (ctx = Some c
            \<and> (truthy (obj_get c ''executionContext'') \<or> truthy (driver wargs)) \<longrightarrow>
          neo4jDatabaseInfo_after (wrapResolver getInfo wargs nxt root args ctx info cache)
            = dbInfo wargs)
      \<and> (\<forall>r a cc i c'.
            Next r a cc i
              \<in> set (calls (wrapResolver getInfo wargs nxt root args ctx info cache))
            \<and> context_after (wrapResolver getInfo wargs nxt root args ctx info cache)
                = Some c'
            \<and> ''neo4jDatabaseInfo'' |\<notin>| fmdom c' \<longrightarrow>
            member cc ''neo4jDatabaseInfo'' = dbInfo wargs))"
proof (rule conjI; rule impI)
  assume "truthy (member cache ''version'')
      \<and> (\<forall>r \<in> set reqs. \<not> truthy (dbInfo (req_wargs r)))"
  then show "(\<forall>ev \<in> set (fst (run_requests getInfo cache reqs)). \<not> is_version_query ev)
      \<and> snd (run_requests getInfo cache reqs) = cache"
    using run_requests_cached[of cache reqs getInfo] by blast
next
  assume "truthy (member (dbInfo wargs) ''version'')"
  then show "(\<forall>ev \<in> set (calls (wrapResolver getInfo wargs nxt root args ctx info cache)).
            \<not> is_version_query ev)
      \<and> (ctx = Some c
            \<and> (truthy (obj_get c ''executionContext'') \<or> truthy (driver wargs)) \<longrightarrow>
          neo4jDatabaseInfo_after (wrapResolver getInfo wargs nxt root args ctx info cache)
            = dbInfo wargs)
      \<and> (\<forall>r a cc i c'.
            Next r a cc i
              \<in> set (calls (wrapResolver getInfo wargs nxt root args ctx info cache))
            \<and> context_after (wrapResolver getInfo wargs nxt root args ctx info cache)
                = Some c'
            \<and> ''neo4jDatabaseInfo'' |\<notin>| fmdom c' \<longrightarrow>
            member cc ''neo4jDatabaseInfo'' = dbInfo wargs)"
    by (rule wrapResolver_override)
qed

section \<open>The claims on concrete requests\<close>

text \<open>C2 on a context whose token is empty, which the sample decoder rejects.\<close>

theorem getAuthorizationContext_decode_failure_witness:
  "\<not> truthy (obj_get (obj [(''token'', JStr [])]) ''jwt'')
   \<and> decode (sample_authorization False) (obj [(''token'', JStr [])])
       = Inl (Error ''jwt malformed'')
   \<and> (\<exists>verdict.
         getAuthorizationContext (obj [(''token'', JStr [])])
             (Some (sample_authorization False)) JUndefined =
           ([Decode (obj [(''token'', JStr [])])], obj [(''token'', JStr [])], Inr verdict)
       \<and> member verdict ''isAuthenticated'' = JBool False
       \<and> member verdict ''jwtParam'' = NamedParam ''jwt'' (JObj (obj []))
       \<and> member (member verdict ''jwtParam'') ''value'' = JObj (obj []))"
  using getAuthorizationContext_decode_failure
          [of "obj [(''token'', JStr [])]" "sample_authorization False"
              "Error ''jwt malformed''" JUndefined]
  by (simp add: sample_authorization_def obj_get_obj)

text \<open>C3 on a context with claims and no token: the sample decoder would have thrown.\<close>

theorem getAuthorizationContext_reuses_claims_witness:
  "truthy (obj_get (obj [(''jwt'', JObj (obj [(''sub'', JStr ''user-1'')]))]) ''jwt'')
   \<and> getAuthorizationContext (obj [(''jwt'', JObj (obj [(''sub'', JStr ''user-1'')]))])
         (Some (sample_authorization True)) JUndefined =
       ([], obj [(''jwt'', JObj (obj [(''sub'', JStr ''user-1'')]))],
        Inr (JObj (obj [(''isAuthenticated'', JBool True),
                        (''jwt'', JObj (obj [(''sub'', JStr ''user-1'')])),
                        (''jwtParam'', NamedParam ''jwt'' (JObj (obj [(''sub'', JStr ''user-1'')]))),
                        (''isAuthenticatedParam'',
                           NamedParam ''isAuthenticated'' (JBool True))])))"
  using getAuthorizationContext_reuses_claims
          [of "obj [(''jwt'', JObj (obj [(''sub'', JStr ''user-1'')]))]"
              "Some (sample_authorization True)" JUndefined]
  by (simp add: obj_get_obj)

text \<open>
  Claim C4 as stated does not hold: a context whose \<^verbatim>\<open>jwt\<close> is \<^verbatim>\<open>null\<close> carries no claims, and with
  no decoder the verdict's \<^verbatim>\<open>jwt\<close> is \<^verbatim>\<open>null\<close>, not \<^verbatim>\<open>undefined\<close>.
\<close>

theorem getAuthorizationContext_no_decoder_null_claims:
  "\<not> truthy (obj_get (obj [(''jwt'', JNull)]) ''jwt'')
   \<and> getAuthorizationContext (obj [(''jwt'', JNull)]) None JUndefined =
       ([], obj [(''jwt'', JNull)],
        Inr (JObj (obj [(''isAuthenticated'', JBool True),
                        (''jwt'', JNull),
                        (''jwtParam'', NamedParam ''jwt'' JNull),
                        (''isAuthenticatedParam'',
                           NamedParam ''isAuthenticated'' (JBool True))])))
   \<and> member (JObj (obj [(''isAuthenticated'', JBool True),
                          (''jwt'', JNull),
                          (''jwtParam'', NamedParam ''jwt'' JNull),
                          (''isAuthenticatedParam'',
                             NamedParam ''isAuthenticated'' (JBool True))])) ''jwt'' = JNull
   \<and> JNull \<noteq> JUndefined"
  by (simp add: getAuthorizationContext_def authenticatedContext_def obj_get_obj)

text \<open>C4, amended, on a context with a token and no \<^verbatim>\<open>jwt\<close>: the verdict's \<^verbatim>\<open>jwt\<close> is \<^verbatim>\<open>undefined\<close>.\<close>

theorem getAuthorizationContext_no_decoder_witness:
  "\<not> truthy (obj_get (obj [(''token'', JStr ''abc'')]) ''jwt'')
   \<and> (\<exists>verdict.
         getAuthorizationContext (obj [(''token'', JStr ''abc'')]) None JUndefined =
           ([], obj [(''token'', JStr ''abc'')], Inr verdict)
       \<and> member verdict ''isAuthenticated'' = JBool True
       \<and> member verdict ''jwt'' = JUndefined)"
  using getAuthorizationContext_no_decoder [of "obj [(''token'', JStr ''abc'')]" JUndefined]
  by (simp add: obj_get_obj)

text \<open>
  Claim C1 as stated does not hold: with a decoder, \<^verbatim>\<open>globalAuthentication\<close> enabled, no claims
  and no token, but the subscriptions feature not configured, the next step is called with the
  context and nothing is thrown.
\<close>

theorem wrapSubscription_disabled_no_rejection:
  "authorization (sample_wargs JUndefined JUndefined (obj []) (Some (sample_authorization True)))
     = Some (sample_authorization True)
   \<and> globalAuthentication (sample_authorization True)
   \<and> \<not> truthy (member (context_value (Some (obj []))) ''jwt'')
   \<and> \<not> truthy (member (connectionParams (Some (obj []))) ''authorization'')
   \<and> wrapSubscription
         (sample_wargs JUndefined JUndefined (obj []) (Some (sample_authorization True)))
         sample_next JNull JNull (Some (obj [])) JNull =
       ([Next JNull JNull (JObj (obj [])) JNull], Inr (JObj (obj [])))"
  by (simp add: subscription_run_simps)

text \<open>C1, amended, on a connection whose parameters hold a language only.\<close>

theorem wrapSubscription_rejects_missing_token_witness:
  "truthy (obj_get (features (sample_wargs JUndefined JUndefined
                               (obj [(''subscriptions'', JObj (obj []))])
                               (Some (sample_authorization True)))) ''subscriptions'')
   \<and> globalAuthentication (sample_authorization True)
   \<and> \<not> truthy (member (context_value
                         (Some (obj [(''connectionParams'', JObj (obj [(''lang'', JStr ''en'')]))])))
                  ''jwt'')
   \<and> \<not> truthy (member (connectionParams
                         (Some (obj [(''connectionParams'', JObj (obj [(''lang'', JStr ''en'')]))])))
                  ''authorization'')
   \<and> wrapSubscription
         (sample_wargs JUndefined JUndefined (obj [(''subscriptions'', JObj (obj []))])
            (Some (sample_authorization True)))
         sample_next JNull JNull
         (Some (obj [(''connectionParams'', JObj (obj [(''lang'', JStr ''en'')]))])) JNull =
       ([], Inl (Neo4jError ''Unauthenticated'' AUTH_FORBIDDEN_ERROR))"
  using wrapSubscription_rejects_missing_token
          [of "sample_wargs JUndefined JUndefined (obj [(''subscriptions'', JObj (obj []))])
                 (Some (sample_authorization True))"
              "sample_authorization True"
              "Some (obj [(''connectionParams'', JObj (obj [(''lang'', JStr ''en'')]))])"
              sample_next JNull JNull JNull]
  by (simp add: sample_wargs_def sample_authorization_def connectionParams_def
                context_value_def obj_get_obj)

text \<open>
  C6 on a connection with claims, no token, and mandatory authentication: the next step runs
  and sees the claims.
\<close>

theorem wrapSubscription_reuses_context_claims_witness:
  "truthy (member (context_value (Some (obj [(''jwt'', JObj (obj [(''sub'', JStr ''user-1'')]))])))
             ''jwt'')
   \<and> (\<exists>composed.
         wrapSubscription
           (sample_wargs JUndefined JUndefined (obj [(''subscriptions'', JObj (obj []))])
              (Some (sample_authorization True)))
           sample_next JNull JNull
           (Some (obj [(''jwt'', JObj (obj [(''sub'', JStr ''user-1'')]))])) JNull =
         ([Next JNull JNull composed JNull], Inr composed)
       \<and> member composed ''jwt'' = JObj (obj [(''sub'', JStr ''user-1'')]))"
  using wrapSubscription_reuses_context_claims
          [of "Some (obj [(''jwt'', JObj (obj [(''sub'', JStr ''user-1'')]))])"
              "sample_wargs JUndefined JUndefined (obj [(''subscriptions'', JObj (obj []))])
                 (Some (sample_authorization True))"
              sample_next JNull JNull JNull]
  by (simp add: context_value_def obj_get_obj sample_next_def)

text \<open>
  Claim C9 as stated does not hold: with the subscriptions feature not configured, the context
  passed to the next step has no \<^verbatim>\<open>authorization\<close> property although the connection
  parameters have one; the parameters are not merged.
\<close>

theorem wrapSubscription_disabled_params_not_merged:
  "wrapSubscription (sample_wargs JUndefined JUndefined (obj []) None) sample_next JNull JNull
       (Some (obj [(''connectionParams'', JObj (obj [(''authorization'', JStr ''Bearer t'')]))]))
       JNull =
     ([Next JNull JNull
         (JObj (obj [(''connectionParams'', JObj (obj [(''authorization'', JStr ''Bearer t'')]))]))
         JNull],
      Inr (JObj (obj [(''connectionParams'',
                       JObj (obj [(''authorization'', JStr ''Bearer t'')]))])))
   \<and> member (JObj (obj [(''connectionParams'',
                          JObj (obj [(''authorization'', JStr ''Bearer t'')]))]))
        ''authorization'' = JUndefined
   \<and> member (connectionParams
               (Some (obj [(''connectionParams'',
                            JObj (obj [(''authorization'', JStr ''Bearer t'')]))])))
        ''authorization'' = JStr ''Bearer t''"
  by (simp add: subscription_run_simps)

text \<open>C9, amended, on the same connection with a decoder configured.\<close>

theorem wrapSubscription_disabled_passes_context_witness:
  "\<not> truthy (obj_get (features (sample_wargs JUndefined JUndefined (obj [])
                                  (Some (sample_authorization True)))) ''subscriptions'')
   \<and> wrapSubscription
         (sample_wargs JUndefined JUndefined (obj []) (Some (sample_authorization True)))
         sample_next JNull JNull
         (Some (obj [(''connectionParams'', JObj (obj [(''authorization'', JStr ''Bearer t'')]))]))
         JNull =
       ([Next JNull JNull
           (JObj (obj [(''connectionParams'',
                        JObj (obj [(''authorization'', JStr ''Bearer t'')]))]))
           JNull],
        Inr (JObj (obj [(''connectionParams'',
                         JObj (obj [(''authorization'', JStr ''Bearer t'')]))])))"
  using wrapSubscription_disabled_passes_context
          [of "sample_wargs JUndefined JUndefined (obj []) (Some (sample_authorization True))"
              sample_next JNull JNull
              "Some (obj [(''connectionParams'',
                           JObj (obj [(''authorization'', JStr ''Bearer t'')]))])" JNull]
  by (simp add: sample_wargs_def obj_get_obj context_value_def sample_next_def)

text \<open>
  C5 on a request whose context has its own \<^verbatim>\<open>executor\<close> property: the next step receives
  that value, not the executor the wrapper constructed.
\<close>

theorem wrapResolver_caller_fields_override_witness:
  "\<exists>composed.
     calls (wrapResolver sample_getNeo4jDatabaseInfo
              (sample_wargs (JStr ''driver'') (JObj (obj [(''version'', JStr ''5.0.0'')]))
                 (obj []) None)
              sample_next JNull JNull
              (Some (obj [(''executionContext'', JStr ''session''), (''executor'', JStr ''mine'')]))
              JNull JUndefined) = [Next JNull JNull composed JNull]
   \<and> context_after (wrapResolver sample_getNeo4jDatabaseInfo
              (sample_wargs (JStr ''driver'') (JObj (obj [(''version'', JStr ''5.0.0'')]))
                 (obj []) None)
              sample_next JNull JNull
              (Some (obj [(''executionContext'', JStr ''session''), (''executor'', JStr ''mine'')]))
              JNull JUndefined)
       = Some (obj_set ''jwt'' JUndefined
                 (obj [(''executionContext'', JStr ''session''), (''executor'', JStr ''mine'')]))
   \<and> ''executor'' |\<in>| fmdom (obj_set ''jwt'' JUndefined
                 (obj [(''executionContext'', JStr ''session''), (''executor'', JStr ''mine'')]))
   \<and> member composed ''executor'' = JStr ''mine''"
proof -
  let ?out = "wrapResolver sample_getNeo4jDatabaseInfo
              (sample_wargs (JStr ''driver'') (JObj (obj [(''version'', JStr ''5.0.0'')]))
                 (obj []) None)
              sample_next JNull JNull
              (Some (obj [(''executionContext'', JStr ''session''), (''executor'', JStr ''mine'')]))
              JNull JUndefined"
  let ?c = "obj_set ''jwt'' JUndefined
              (obj [(''executionContext'', JStr ''session''), (''executor'', JStr ''mine'')])"
  have "\<exists>composed. calls ?out = [Next JNull JNull composed JNull]"
    by (simp add: resolver_run_simps)
  then obtain composed where c: "calls ?out = [Next JNull JNull composed JNull]" ..
  have a: "context_after ?out = Some ?c"
    by (simp add: resolver_run_simps)
  have k: "''executor'' |\<in>| fmdom ?c"
    by (simp add: fmdom_obj_set fmdom_obj)
  have n: "Next JNull JNull composed JNull \<in> set (calls ?out)"
    using c by simp
  have "member composed ''executor'' = obj_get ?c ''executor''"
    using wrapResolver_caller_fields_override [OF n a k] .
  then have "member composed ''executor'' = JStr ''mine''"
    by (simp add: obj_get_obj_set obj_get_obj)
  with c a k show ?thesis by blast
qed

text \<open>
  C7 on a request with neither handle nor driver, and on a request with a session in its
  context.
\<close>

theorem wrapResolver_execution_handle_witness:
  "\<not> truthy (member (context_value (Some (obj [(''token'', JStr ''abc'')]))) ''executionContext'')
   \<and> \<not> truthy (driver (sample_wargs JUndefined JUndefined (obj []) None))
   \<and> wrapResolver sample_getNeo4jDatabaseInfo (sample_wargs JUndefined JUndefined (obj []) None)
         sample_next JNull JNull (Some (obj [(''token'', JStr ''abc'')])) JNull JUndefined =
       \<lparr>calls = [], context_after = Some (obj [(''token'', JStr ''abc'')]),
        neo4jDatabaseInfo_after = JUndefined, result = Inl (Error NO_DRIVER_MESSAGE)\<rparr>
   \<and> truthy (obj_get (obj [(''executionContext'', JStr ''session'')]) ''executionContext'')
   \<and> wrapResolver sample_getNeo4jDatabaseInfo
         ((sample_wargs JUndefined JUndefined (obj []) None)\<lparr>driver := JStr ''driver''\<rparr>)
         sample_next JNull JNull (Some (obj [(''executionContext'', JStr ''session'')]))
         JNull JUndefined =
       wrapResolver sample_getNeo4jDatabaseInfo (sample_wargs JUndefined JUndefined (obj []) None)
         sample_next JNull JNull (Some (obj [(''executionContext'', JStr ''session'')]))
         JNull JUndefined
   \<and> (\<exists>c'. context_after
               (wrapResolver sample_getNeo4jDatabaseInfo
                  (sample_wargs JUndefined JUndefined (obj []) None)
                  sample_next JNull JNull (Some (obj [(''executionContext'', JStr ''session'')]))
                  JNull JUndefined) = Some c'
           \<and> obj_get c' ''executionContext'' = JStr ''session'')
   \<and> (\<exists>ex. GetNeo4jDatabaseInfo ex
               \<in> set (calls (wrapResolver sample_getNeo4jDatabaseInfo
                  (sample_wargs JUndefined JUndefined (obj []) None)
                  sample_next JNull JNull (Some (obj [(''executionContext'', JStr ''session'')]))
                  JNull JUndefined))
           \<and> member ex ''executionContext'' = JStr ''session'')"
proof -
  let ?w = "sample_wargs JUndefined JUndefined (obj []) None"
  let ?c = "obj [(''executionContext'', JStr ''session'')]"
  let ?out = "wrapResolver sample_getNeo4jDatabaseInfo ?w sample_next JNull JNull (Some ?c)
                JNull JUndefined"
  have h1: "\<not> truthy (member (context_value (Some (obj [(''token'', JStr ''abc'')])))
                         ''executionContext'')"
    by (simp add: context_value_def obj_get_obj)
  have h2: "\<not> truthy (driver ?w)"
    by (simp add: sample_wargs_def)
  have h3: "truthy (obj_get ?c ''executionContext'')"
    by (simp add: obj_get_obj)
  have v: "obj_get ?c ''executionContext'' = JStr ''session''"
    by (simp add: obj_get_obj)
  note t1 = wrapResolver_execution_handle
              [where ctx = "Some (obj [(''token'', JStr ''abc'')])" and wargs = ?w
                 and getInfo = sample_getNeo4jDatabaseInfo and nxt = sample_next
                 and root = JNull and args = JNull and info = JNull and cache = JUndefined
                 and c = ?c and d = "JStr ''driver''"]
  have "\<exists>ex. GetNeo4jDatabaseInfo ex \<in> set (calls ?out)"
    by (simp add: resolver_run_simps)
  then obtain ex where q: "GetNeo4jDatabaseInfo ex \<in> set (calls ?out)" ..
  have "member ex ''executionContext'' = JStr ''session''"
    using t1 h3 q v by metis
  with q have e: "\<exists>ex. GetNeo4jDatabaseInfo ex \<in> set (calls ?out)
                      \<and> member ex ''executionContext'' = JStr ''session''"
    by blast
  show ?thesis
    using t1 h1 h2 h3 v e by simp
qed

text \<open>
  Claim C8 as stated does not hold: an override that carries no version is assigned to the
  cache and then replaced by the answer of the version query, which is made.
\<close>

theorem wrapResolver_override_without_version:
  "truthy (dbInfo (sample_wargs JUndefined (JObj (obj [(''edition'', JStr ''enterprise'')]))
                     (obj []) None))
   \<and> filter is_version_query
        (calls (wrapResolver sample_getNeo4jDatabaseInfo
                  (sample_wargs JUndefined (JObj (obj [(''edition'', JStr ''enterprise'')]))
                     (obj []) None)
                  sample_next JNull JNull (Some (obj [(''executionContext'', JStr ''session'')]))
                  JNull JUndefined))
       = [GetNeo4jDatabaseInfo
            (JObj (obj [(''executionContext'', JStr ''session''),
                        (''cypherQueryOptions'', JUndefined),
                        (''sessionConfig'', JUndefined)]))]
   \<and> neo4jDatabaseInfo_after
        (wrapResolver sample_getNeo4jDatabaseInfo
           (sample_wargs JUndefined (JObj (obj [(''edition'', JStr ''enterprise'')]))
              (obj []) None)
           sample_next JNull JNull (Some (obj [(''executionContext'', JStr ''session'')]))
           JNull JUndefined)
       = JObj (obj [(''version'', JStr ''5.26.0''), (''edition'', JStr ''enterprise'')])
   \<and> member (JObj (obj [(''version'', JStr ''5.26.0''), (''edition'', JStr ''enterprise'')]))
        ''version'' = JStr ''5.26.0''
   \<and> member (dbInfo (sample_wargs JUndefined (JObj (obj [(''edition'', JStr ''enterprise'')]))
                       (obj []) None)) ''version'' = JUndefined"
  by (simp add: resolver_run_simps is_version_query_def)

text \<open>
  C8, amended: two requests on a populated cache, the second of which fails for want of a
  handle, and one request through a wrapper with an override on an empty cache.
\<close>

theorem wrapResolver_version_cache_witness:
  "truthy (member (JObj (obj [(''version'', JStr ''5.26.0'')])) ''version'')
   \<and> filter is_version_query
        (fst (run_requests sample_getNeo4jDatabaseInfo (JObj (obj [(''version'', JStr ''5.26.0'')]))
                [\<lparr>req_wargs = sample_wargs JUndefined JUndefined (obj []) None,
                  req_next = sample_next, req_root = JNull, req_args = JNull,
                  req_context = Some (obj [(''executionContext'', JStr ''session'')]),
                  req_info = JNull\<rparr>,
                 \<lparr>req_wargs = sample_wargs (JStr ''driver'') JUndefined (obj []) None,
                  req_next = sample_next, req_root = JNull, req_args = JNull,
                  req_context = Some (obj []), req_info = JNull\<rparr>])) = []
   \<and> snd (run_requests sample_getNeo4jDatabaseInfo (JObj (obj [(''version'', JStr ''5.26.0'')]))
                [\<lparr>req_wargs = sample_wargs JUndefined JUndefined (obj []) None,
                  req_next = sample_next, req_root = JNull, req_args = JNull,
                  req_context = Some (obj [(''executionContext'', JStr ''session'')]),
                  req_info = JNull\<rparr>,
                 \<lparr>req_wargs = sample_wargs (JStr ''driver'') JUndefined (obj []) None,
                  req_next = sample_next, req_root = JNull, req_args = JNull,
                  req_context = Some (obj []), req_info = JNull\<rparr>])
       = JObj (obj [(''version'', JStr ''5.26.0'')])
   \<and> truthy (member (dbInfo (sample_wargs JUndefined (JObj (obj [(''version'', JStr ''5.0.0'')]))
                               (obj []) None)) ''version'')
   \<and> filter is_version_query
        (calls (wrapResolver sample_getNeo4jDatabaseInfo
                  (sample_wargs JUndefined (JObj (obj [(''version'', JStr ''5.0.0'')]))
                     (obj []) None)
                  sample_next JNull JNull (Some (obj [(''executionContext'', JStr ''session'')]))
                  JNull JUndefined)) = []
   \<and> neo4jDatabaseInfo_after
        (wrapResolver sample_getNeo4jDatabaseInfo
           (sample_wargs JUndefined (JObj (obj [(''version'', JStr ''5.0.0'')])) (obj []) None)
           sample_next JNull JNull (Some (obj [(''executionContext'', JStr ''session'')]))
           JNull JUndefined)
       = JObj (obj [(''version'', JStr ''5.0.0'')])"
proof -
  let ?cache = "JObj (obj [(''version'', JStr ''5.26.0'')])"
  let ?reqs = "[\<lparr>req_wargs = sample_wargs JUndefined JUndefined (obj []) None,
                  req_next = sample_next, req_root = JNull, req_args = JNull,
                  req_context = Some (obj [(''executionContext'', JStr ''session'')]),
                  req_info = JNull\<rparr>,
                 \<lparr>req_wargs = sample_wargs (JStr ''driver'') JUndefined (obj []) None,
                  req_next = sample_next, req_root = JNull, req_args = JNull,
                  req_context = Some (obj []), req_info = JNull\<rparr>]"
  let ?w = "sample_wargs JUndefined (JObj (obj [(''version'', JStr ''5.0.0'')])) (obj []) None"
  let ?c = "obj [(''executionContext'', JStr ''session'')]"
  have h1: "truthy (member ?cache ''version'')"
    by (simp add: obj_get_obj)
  have h2: "\<forall>r \<in> set ?reqs. \<not> truthy (dbInfo (req_wargs r))"
    by (simp add: sample_wargs_def)
  have h3: "truthy (member (dbInfo ?w) ''version'')"
    by (simp add: sample_wargs_def obj_get_obj)
  have h4: "truthy (obj_get ?c ''executionContext'')"
    by (simp add: obj_get_obj)
  have d: "dbInfo ?w = JObj (obj [(''version'', JStr ''5.0.0'')])"
    by (simp add: sample_wargs_def)
  note t = wrapResolver_version_cache
             [where cache = ?cache and reqs = ?reqs and getInfo = sample_getNeo4jDatabaseInfo
                and wargs = ?w and nxt = sample_next and root = JNull and args = JNull
                and ctx = "Some ?c" and info = JNull and c = ?c]
  have p1: "(\<forall>ev \<in> set (fst (run_requests sample_getNeo4jDatabaseInfo ?cache ?reqs)).
               \<not> is_version_query ev)
            \<and> snd (run_requests sample_getNeo4jDatabaseInfo ?cache ?reqs) = ?cache"
    using t h1 h2 by blast
  note t' = wrapResolver_version_cache
             [where cache = JUndefined and reqs = "[]" and getInfo = sample_getNeo4jDatabaseInfo
                and wargs = ?w and nxt = sample_next and root = JNull and args = JNull
                and ctx = "Some ?c" and info = JNull and c = ?c]
  have p2: "(\<forall>ev \<in> set (calls (wrapResolver sample_getNeo4jDatabaseInfo ?w sample_next
                                   JNull JNull (Some ?c) JNull JUndefined)).
               \<not> is_version_query ev)
            \<and> neo4jDatabaseInfo_after (wrapResolver sample_getNeo4jDatabaseInfo ?w sample_next
                                          JNull JNull (Some ?c) JNull JUndefined) = dbInfo ?w"
    using t' h3 h4 by blast
  show ?thesis
    using p1 p2 h1 h3 d by (simp add: filter_empty_conv)
qed

end
